theory Spec2Isabelle
  imports
    Complex_Main
    "HOL-Library.Char_ord"
    "HOL-Library.List_Lexorder"
    "HOL-Library.Sublist"
begin

section \<open>The document management page (ManageSource.jsx)\<close>

text \<open>
  The page keeps its data in React state cells and changes them in event handlers.
  Each handler is embedded as a function from the state of the render in which it
  was created to the state after it has run. Notifications, console output and
  requests to the backend are appended to a trace, in the order in which the handler
  issues them. The result of a request is an argument of the handler that awaits it.
\<close>

subsection \<open>JavaScript values\<close>

text \<open>
  A JavaScript number as far as the page meets one: not-a-number, the two infinities,
  or a finite value. File sizes are integers and the only arithmetic is a division by
  \<open>1024 * 1024\<close>, which is exact in binary floating point, so a finite value is
  modelled by the real number it denotes.
\<close>

datatype number = NaN | NegInfinity | Finite real | Infinity

text \<open>A \<open>Date\<close> object: its time value is an integral number of milliseconds, or NaN.\<close>

datatype date = InvalidDate | Instant int

fun isNaN :: "number \<Rightarrow> bool" where
  "isNaN NaN = True"
| "isNaN _ = False"

text \<open>The relational operators on numbers: every comparison with NaN is false.\<close>

fun number_lt :: "number \<Rightarrow> number \<Rightarrow> bool" where
  "number_lt NaN _ = False"
| "number_lt _ NaN = False"
| "number_lt _ NegInfinity = False"
| "number_lt NegInfinity _ = True"
| "number_lt Infinity _ = False"
| "number_lt _ Infinity = True"
| "number_lt (Finite x) (Finite y) = (x < y)"

definition number_ge :: "number \<Rightarrow> number \<Rightarrow> bool" where
  "number_ge a b = (\<not> isNaN a \<and> \<not> isNaN b \<and> \<not> number_lt a b)"

fun getTime :: "date \<Rightarrow> number" where
  "getTime InvalidDate = NaN"
| "getTime (Instant t) = Finite (real_of_int t)"

text \<open>\<open>a >= b\<close> on two \<open>Date\<close> objects compares their time values.\<close>

definition date_ge :: "date \<Rightarrow> date \<Rightarrow> bool" where
  "date_ge a b = number_ge (getTime a) (getTime b)"

text \<open>\<open>String.prototype.includes\<close>: the argument occurs as a contiguous substring.\<close>

fun includes_str :: "string \<Rightarrow> string \<Rightarrow> bool" where
  "includes_str [] t = (t = [])"
| "includes_str (c # cs) t = (prefix t (c # cs) \<or> includes_str cs t)"

text \<open>\<open>Array.prototype.find\<close>: the first element that satisfies the predicate, or undefined.\<close>

fun find_first :: "('a \<Rightarrow> bool) \<Rightarrow> 'a list \<Rightarrow> 'a option" where
  "find_first P [] = None"
| "find_first P (x # xs) = (if P x then Some x else find_first P xs)"

text \<open>
  \<open>Array.prototype.sort\<close> with a comparison function is stable: of two elements that
  the function reports as equal, the one that came first stays first. The model is
  the stable insertion sort; it agrees with every conforming sort whenever the
  comparison function is consistent. (With an invalid upload date the comparison on
  dates is not consistent and the language leaves the order to the implementation.)
\<close>

fun insert_sorted :: "('a \<Rightarrow> 'a \<Rightarrow> int) \<Rightarrow> 'a \<Rightarrow> 'a list \<Rightarrow> 'a list" where
  "insert_sorted cmp x [] = [x]"
| "insert_sorted cmp x (y # ys) =
     (if cmp x y \<le> 0 then x # y # ys else y # insert_sorted cmp x ys)"

definition Array_sort :: "('a \<Rightarrow> 'a \<Rightarrow> int) \<Rightarrow> 'a list \<Rightarrow> 'a list" where
  "Array_sort cmp xs = foldr (insert_sorted cmp) xs []"

text \<open>
  A JavaScript \<open>Set\<close> of strings: its elements without repetition, in insertion order
  (the order in which \<open>Array.from\<close> lists them).
\<close>

type_synonym string_set = "string list"

definition Set_has :: "string_set \<Rightarrow> string \<Rightarrow> bool" where
  "Set_has s x = (x \<in> set s)"

definition Set_add :: "string_set \<Rightarrow> string \<Rightarrow> string_set" where
  "Set_add s x = (if x \<in> set s then s else s @ [x])"

definition Set_delete :: "string_set \<Rightarrow> string \<Rightarrow> string_set" where
  "Set_delete s x = removeAll x s"

definition Set_of :: "string list \<Rightarrow> string_set" where
  "Set_of xs = foldl Set_add [] xs"

definition Set_size :: "string_set \<Rightarrow> nat" where
  "Set_size s = length s"

text \<open>
  The functions of the JavaScript runtime that the page calls on strings. Their
  full definitions (Unicode case mapping, the numeric and date grammars, rounding)
  are not part of the repository: the page's functions take them as a parameter, and
  the theorems hold for every choice.
\<close>

record platform =
  toLowerCase :: "string \<Rightarrow> string"
  parseFloat :: "string \<Rightarrow> number"
  newDate :: "string \<Rightarrow> date"

subsection \<open>Data model\<close>

text \<open>An element of \<open>response.pdfs\<close>; \<open>None\<close> is a field that is missing.\<close>

record raw_document =
  stored_filename :: "string option"
  original_filename :: string
  processed_time :: "string option"
  uploaded_time :: "string option"
  file_size :: "int option"
  file_hash :: "string option"

record document =
  id_doc :: string
  name :: string
  storedFilename :: "string option"
  uploadDate :: date
  size_doc :: int
  fileHash :: "string option"

datatype sort_key = Name | UploadDate | Size

datatype direction = Asc | Desc

record sort_config =
  key :: "sort_key option"
  direction :: direction

datatype effect =
    ToastError string
  | ToastSuccess string
  | ConsoleError string
  | GetDocuments
  | DeleteDocuments "string option list"

datatype 'a outcome = Rejects | Resolves 'a

record delete_result =
  total_deleted :: int

datatype error = TypeError

record state =
  documents :: "document list"
  filteredDocuments :: "document list"
  loading :: bool
  selectedDocuments :: string_set
  searchTerm :: string
  sortConfig :: sort_config
  showDeleteConfirm :: bool
  sizeFilter :: string
  dateFilter :: string
  trace :: "effect list"

definition emit :: "effect list \<Rightarrow> state \<Rightarrow> state" where
  "emit es st = st\<lparr>trace := trace st @ es\<rparr>"

definition is_request :: "effect \<Rightarrow> bool" where
  "is_request e = (case e of GetDocuments \<Rightarrow> True | DeleteDocuments _ \<Rightarrow> True | _ \<Rightarrow> False)"

definition requests :: "state \<Rightarrow> effect list" where
  "requests st = filter is_request (trace st)"

definition initial_state :: state where
  "initial_state =
     \<lparr>documents = [], filteredDocuments = [], loading = True, selectedDocuments = [],
      searchTerm = [], sortConfig = \<lparr>key = None, direction = Asc\<rparr>,
      showDeleteConfirm = False, sizeFilter = [], dateFilter = [], trace = []\<rparr>"

subsection \<open>Loading the collection\<close>

text \<open>The decimal numeral of a natural number, as a template literal prints an index.\<close>

definition digit_char :: "nat \<Rightarrow> char" where
  "digit_char d = ''0123456789'' ! d"

fun show_nat :: "nat \<Rightarrow> string" where
  "show_nat n = (if n < 10 then [digit_char n] else show_nat (n div 10) @ [digit_char (n mod 10)])"

definition show_int :: "int \<Rightarrow> string" where
  "show_int i = (if i < 0 then CHR ''-'' # show_nat (nat (- i)) else show_nat (nat i))"

text \<open>\<open>a || b\<close> on a string field: a missing or empty string is falsy.\<close>

definition truthy :: "string option \<Rightarrow> bool" where
  "truthy v = (case v of None \<Rightarrow> False | Some s \<Rightarrow> s \<noteq> [])"

text \<open>\<open>new Date(v)\<close> for a string or a missing value; \<open>new Date(undefined)\<close> is invalid.\<close>

definition new_Date :: "platform \<Rightarrow> string option \<Rightarrow> date" where
  "new_Date p v = (case v of None \<Rightarrow> InvalidDate | Some s \<Rightarrow> newDate p s)"

definition processDoc :: "platform \<Rightarrow> nat \<Rightarrow> raw_document \<Rightarrow> document" where
  "processDoc p index doc =
     \<lparr>id_doc = (if truthy (stored_filename doc) then the (stored_filename doc)
                else ''doc-'' @ show_nat index),
      name = original_filename doc,
      storedFilename = stored_filename doc,
      uploadDate = new_Date p (if truthy (processed_time doc) then processed_time doc
                               else uploaded_time doc),
      size_doc = (case file_size doc of None \<Rightarrow> 0 | Some n \<Rightarrow> if n = 0 then 0 else n),
      fileHash = file_hash doc\<rparr>"

text \<open>
  \<open>loadDocuments\<close> awaits the listing request inside a \<open>try\<close> block. The response of a
  request that resolves is taken to carry its \<open>pdfs\<close> array; the collection is
  replaced in one step, after every element has been processed.
\<close>

definition loadDocuments :: "platform \<Rightarrow> raw_document list outcome \<Rightarrow> state \<Rightarrow> state" where
  "loadDocuments p response st =
     (let st1 = emit [GetDocuments] (st\<lparr>loading := True\<rparr>);
          st2 = (case response of
                   Resolves pdfs \<Rightarrow>
                     st1\<lparr>documents := map (\<lambda>(index, doc). processDoc p index doc)
                                          (enumerate 0 pdfs)\<rparr>
                 | Rejects \<Rightarrow>
                     emit [ConsoleError ''Error loading documents:'',
                           ToastError ''Failed to load documents''] st1)
      in st2\<lparr>loading := False\<rparr>)"

subsection \<open>Filtering and sorting\<close>

datatype sort_value = Str string | Num number

fun value_lt :: "sort_value \<Rightarrow> sort_value \<Rightarrow> bool" where
  "value_lt (Str a) (Str b) = (a < b)"
| "value_lt (Num a) (Num b) = number_lt a b"
| "value_lt _ _ = False"

text \<open>
  The value that the comparison function reads from a document for a sort key:
  the time value for the upload date, the size (\<open>aValue || 0\<close>), the lower-cased name.
\<close>

fun sortValue :: "platform \<Rightarrow> sort_key \<Rightarrow> document \<Rightarrow> sort_value" where
  "sortValue p UploadDate d = Num (getTime (uploadDate d))"
| "sortValue p Size d = Num (Finite (real_of_int (if size_doc d = 0 then 0 else size_doc d)))"
| "sortValue p Name d = Str (toLowerCase p (name d))"

definition compareFn :: "platform \<Rightarrow> sort_key \<Rightarrow> direction \<Rightarrow> document \<Rightarrow> document \<Rightarrow> int" where
  "compareFn p k dir a b =
     (let aValue = sortValue p k a; bValue = sortValue p k b
      in if value_lt aValue bValue then (if dir = Asc then - 1 else 1)
         else if value_lt bValue aValue then (if dir = Asc then 1 else - 1)
         else 0)"

definition searchStage :: "platform \<Rightarrow> state \<Rightarrow> document list \<Rightarrow> document list" where
  "searchStage p st filtered =
     (if searchTerm st \<noteq> [] then
        filter (\<lambda>doc. includes_str (toLowerCase p (name doc)) (toLowerCase p (searchTerm st)))
          filtered
      else filtered)"

definition sizeStage :: "platform \<Rightarrow> state \<Rightarrow> document list \<Rightarrow> document list" where
  "sizeStage p st filtered =
     (if sizeFilter st \<noteq> [] then
        (let sizeValue = parseFloat p (sizeFilter st)
         in if \<not> isNaN sizeValue then
              filter (\<lambda>doc. let docSizeMB = Finite (real_of_int (size_doc doc) / (1024 * 1024))
                             in number_ge docSizeMB sizeValue) filtered
            else filtered)
      else filtered)"

definition dateStage :: "platform \<Rightarrow> state \<Rightarrow> document list \<Rightarrow> document list" where
  "dateStage p st filtered =
     (if dateFilter st \<noteq> [] then
        (let filterDate = newDate p (dateFilter st)
         in filter (\<lambda>doc. date_ge (uploadDate doc) filterDate) filtered)
      else filtered)"

definition sortStage :: "platform \<Rightarrow> state \<Rightarrow> document list \<Rightarrow> document list" where
  "sortStage p st filtered =
     (case key (sortConfig st) of
        None \<Rightarrow> filtered
      | Some k \<Rightarrow> Array_sort (compareFn p k (direction (sortConfig st))) filtered)"

text \<open>The four blocks of \<open>filterAndSortDocuments\<close>, in the order of the source.\<close>

definition filterAndSortDocuments :: "platform \<Rightarrow> state \<Rightarrow> state" where
  "filterAndSortDocuments p st =
     st\<lparr>filteredDocuments :=
          sortStage p st (dateStage p st (sizeStage p st (searchStage p st (documents st))))\<rparr>"

subsection \<open>Sorting and selection handlers\<close>

definition handleSort :: "sort_key \<Rightarrow> state \<Rightarrow> state" where
  "handleSort k st =
     (let dir = (if key (sortConfig st) = Some k \<and> direction (sortConfig st) = Asc
                 then Desc else Asc)
      in st\<lparr>sortConfig := \<lparr>key = Some k, direction = dir\<rparr>\<rparr>)"

definition handleSelectDocument :: "string \<Rightarrow> state \<Rightarrow> state" where
  "handleSelectDocument i st =
     (let newSelected = selectedDocuments st
      in st\<lparr>selectedDocuments :=
              (if Set_has newSelected i then Set_delete newSelected i
               else Set_add newSelected i)\<rparr>)"

definition handleSelectAll :: "state \<Rightarrow> state" where
  "handleSelectAll st =
     (if Set_size (selectedDocuments st) = length (filteredDocuments st)
      then st\<lparr>selectedDocuments := []\<rparr>
      else st\<lparr>selectedDocuments := Set_of (map id_doc (filteredDocuments st))\<rparr>)"

subsection \<open>The delete workflow\<close>

text \<open>
  The resolution of the selected identifiers to their deletion keys: reading
  \<open>fileHash\<close> of an undefined lookup result raises a \<open>TypeError\<close>.
\<close>

fun selectedFileHashes :: "document list \<Rightarrow> string list \<Rightarrow> error + string option list" where
  "selectedFileHashes docs [] = Inr []"
| "selectedFileHashes docs (i # is) =
     (case find_first (\<lambda>d. id_doc d = i) docs of
        None \<Rightarrow> Inl TypeError
      | Some doc \<Rightarrow>
          (case selectedFileHashes docs is of
             Inl e \<Rightarrow> Inl e
           | Inr hs \<Rightarrow> Inr (fileHash doc # hs)))"

text \<open>The \<open>catch\<close> block and the \<open>finally\<close> block of \<open>handleDeleteSelected\<close>.\<close>

definition deleteCatch :: "state \<Rightarrow> state" where
  "deleteCatch st =
     emit [ConsoleError ''Error deleting documents:'', ToastError ''Delete Failed''] st"

definition deleteFinally :: "state \<Rightarrow> state" where
  "deleteFinally st = st\<lparr>showDeleteConfirm := False\<rparr>"

text \<open>
  The guard on an empty selection returns before the \<open>try\<close> block, so the \<open>finally\<close>
  block does not run for it. No other event is taken to run while the handler waits
  for the two requests.
\<close>

definition handleDeleteSelected ::
  "platform \<Rightarrow> delete_result outcome \<Rightarrow> raw_document list outcome \<Rightarrow> state \<Rightarrow> state" where
  "handleDeleteSelected p deleted response st =
     (if Set_size (selectedDocuments st) = 0 then
        emit [ToastError ''No documents selected''] st
      else
        deleteFinally
          (case selectedFileHashes (documents st) (selectedDocuments st) of
             Inl e \<Rightarrow> deleteCatch st
           | Inr hashes \<Rightarrow>
               (let st1 = emit [DeleteDocuments hashes] st
                in case deleted of
                     Rejects \<Rightarrow> deleteCatch st1
                   | Resolves result \<Rightarrow>
                       (let st2 =
                              (if total_deleted result > 0 then
                                 emit [ToastSuccess (''Delete Successfully - ''
                                         @ show_int (total_deleted result)
                                         @ '' files deleted'')] st1
                               else emit [ToastError ''No files were deleted''] st1);
                            st3 = st2\<lparr>selectedDocuments := []\<rparr>
                        in loadDocuments p response st3))))"

subsection \<open>A concrete runtime for evaluation\<close>

text \<open>
  A small instance of the runtime functions, to evaluate the page's functions on
  concrete inputs: ASCII case folding, unsigned decimal numerals (\<open>digits\<close> or
  \<open>digits.digits\<close>, with their exact value) and calendar dates \<open>YYYY-MM-DD\<close> (midnight
  UTC, as a date-only string is read). On every other string the two parsers return
  NaN and an invalid date. It is not the runtime of a browser, which also reads
  signs, exponents, a bare fraction, date-time strings and more, and rounds: it
  agrees with it on the strings at which the theorems below evaluate it
  (\<open>1.5\<close>, \<open>2024-01-15\<close>, \<open>2024-13-01\<close>, \<open>not-a-date\<close>, names in ASCII).
\<close>

definition ascii_lower :: "char \<Rightarrow> char" where
  "ascii_lower c =
     (case map_of (zip ''ABCDEFGHIJKLMNOPQRSTUVWXYZ'' ''abcdefghijklmnopqrstuvwxyz'') c of
        None \<Rightarrow> c
      | Some l \<Rightarrow> l)"

definition ascii_toLowerCase :: "string \<Rightarrow> string" where
  "ascii_toLowerCase s = map ascii_lower s"

definition digit_value :: "char \<Rightarrow> nat option" where
  "digit_value c = map_of (zip ''0123456789'' [0, 1, 2, 3, 4, 5, 6, 7, 8, 9]) c"

fun digits_value :: "nat \<Rightarrow> string \<Rightarrow> nat option" where
  "digits_value acc [] = Some acc"
| "digits_value acc (c # cs) =
     (case digit_value c of None \<Rightarrow> None | Some d \<Rightarrow> digits_value (10 * acc + d) cs)"

definition decimal_of :: "string \<Rightarrow> nat option" where
  "decimal_of s = (if s = [] then None else digits_value 0 s)"

definition decimal_parseFloat :: "string \<Rightarrow> number" where
  "decimal_parseFloat s =
     (let ip = takeWhile (\<lambda>c. c \<noteq> CHR ''.'') s;
          rest = dropWhile (\<lambda>c. c \<noteq> CHR ''.'') s
      in case decimal_of ip of
           None \<Rightarrow> NaN
         | Some i \<Rightarrow>
             (if rest = [] then Finite (real i)
              else case decimal_of (tl rest) of
                     None \<Rightarrow> NaN
                   | Some f \<Rightarrow> Finite (real i + real f / 10 ^ length (tl rest))))"

definition leap_year :: "nat \<Rightarrow> bool" where
  "leap_year y = (y mod 4 = 0 \<and> (y mod 100 \<noteq> 0 \<or> y mod 400 = 0))"

definition days_in_month :: "nat \<Rightarrow> nat \<Rightarrow> nat" where
  "days_in_month y m =
     (if m = 2 then (if leap_year y then 29 else 28)
      else if m = 4 \<or> m = 6 \<or> m = 9 \<or> m = 11 then 30 else 31)"

text \<open>The number of days from 1970-01-01 to a date of the proleptic Gregorian calendar.\<close>

definition days_from_civil :: "int \<Rightarrow> int \<Rightarrow> int \<Rightarrow> int" where
  "days_from_civil y m d =
     (let y1 = (if m \<le> 2 then y - 1 else y);
          era = y1 div 400;
          yoe = y1 - era * 400;
          doy = (153 * (if m > 2 then m - 3 else m + 9) + 2) div 5 + d - 1;
          doe = yoe * 365 + yoe div 4 - yoe div 100 + doy
      in era * 146097 + doe - 719468)"

definition iso_newDate :: "string \<Rightarrow> date" where
  "iso_newDate s =
     (if length s = 10 \<and> s ! 4 = CHR ''-'' \<and> s ! 7 = CHR ''-'' then
        (case (decimal_of (take 4 s), decimal_of (take 2 (drop 5 s)), decimal_of (drop 8 s)) of
           (Some y, Some m, Some d) \<Rightarrow>
             (if 1 \<le> m \<and> m \<le> 12 \<and> 1 \<le> d \<and> d \<le> days_in_month y m
              then Instant (days_from_civil (int y) (int m) (int d) * 86400000)
              else InvalidDate)
         | _ \<Rightarrow> InvalidDate)
      else InvalidDate)"

definition ascii_runtime :: platform where
  "ascii_runtime =
     \<lparr>toLowerCase = ascii_toLowerCase, parseFloat = decimal_parseFloat, newDate = iso_newDate\<rparr>"

text \<open>The number of reloads of the collection that a trace records.\<close>

definition reloads :: "state \<Rightarrow> nat" where
  "reloads st = length (filter (\<lambda>e. e = GetDocuments) (trace st))"

text \<open>Sample documents: the two of the specification's scenario, and a case variant.\<close>

definition doc_a :: document where
  "doc_a = \<lparr>id_doc = ''a.pdf'', name = ''a.pdf'', storedFilename = Some ''a.pdf'',
            uploadDate = Instant 1704067200000, size_doc = 1048576,
            fileHash = Some ''hash-a''\<rparr>"

definition doc_b :: document where
  "doc_b = \<lparr>id_doc = ''b.pdf'', name = ''b.pdf'', storedFilename = Some ''b.pdf'',
            uploadDate = Instant 1706745600000, size_doc = 2097152,
            fileHash = Some ''hash-b''\<rparr>"

definition doc_upper :: document where
  "doc_upper = \<lparr>id_doc = ''A.pdf'', name = ''A.pdf'', storedFilename = Some ''A.pdf'',
                uploadDate = Instant 1709251200000, size_doc = 4096,
                fileHash = Some ''hash-upper''\<rparr>"

section \<open>Properties\<close>

subsection \<open>Sorting state\<close>

text \<open>
  Claim C10. For every prior sort state, \<open>handleSort k\<close> sets the sort key to \<open>k\<close>; the
  direction is descending exactly when the prior state had key \<open>k\<close> with direction
  ascending, and ascending in every other case. Hence, once a key has been selected
  (the prior state has one, or at least one call is made), no sequence of
  \<open>handleSort\<close> calls leads back to the state without a sort key.
\<close>

theorem handleSort_key_direction:
  "key (sortConfig (handleSort k st)) = Some k
   \<and> (direction (sortConfig (handleSort k st)) = Desc
        \<longleftrightarrow> key (sortConfig st) = Some k \<and> direction (sortConfig st) = Asc)
   \<and> (direction (sortConfig (handleSort k st)) = Asc
        \<longleftrightarrow> \<not> (key (sortConfig st) = Some k \<and> direction (sortConfig st) = Asc))
   \<and> (key (sortConfig st) \<noteq> None \<or> ks \<noteq> []
        \<longrightarrow> key (sortConfig (fold handleSort ks st)) \<noteq> None)"
proof -
  have step: "key (sortConfig (handleSort k s)) = Some k" for k s
    by (simp add: handleSort_def)
  have keep: "key (sortConfig s) \<noteq> None \<Longrightarrow> key (sortConfig (fold handleSort ks s)) \<noteq> None"
    for ks s
    by (induction ks arbitrary: s) (simp_all add: step)
  have seq: "key (sortConfig st) \<noteq> None \<or> ks \<noteq> []
        \<longrightarrow> key (sortConfig (fold handleSort ks st)) \<noteq> None"
  proof (cases ks)
    case Nil
    then show ?thesis by simp
  next
    case (Cons k' ks')
    have "key (sortConfig (fold handleSort ks' (handleSort k' st))) \<noteq> None"
      by (rule keep) (simp add: step)
    with Cons show ?thesis by simp
  qed
  show ?thesis
    using seq by (simp add: handleSort_def)
qed

theorem handleSort_key_direction_witness:
  "key (sortConfig (handleSort Name initial_state)) = Some Name
   \<and> direction (sortConfig (handleSort Name (handleSort Name initial_state))) = Desc
   \<and> direction (sortConfig (handleSort Size (handleSort Name initial_state))) = Asc
   \<and> key (sortConfig (fold handleSort [Name, Name, Size] initial_state)) \<noteq> None"
  using handleSort_key_direction [of Name initial_state "[Name, Name, Size]"]
        handleSort_key_direction [of Name "handleSort Name initial_state" "[]"]
        handleSort_key_direction [of Size "handleSort Name initial_state" "[]"]
  by (simp add: initial_state_def)

subsection \<open>Loading\<close>

text \<open>
  Claim C8. When the listing request fails, \<open>loadDocuments\<close> shows the notification
  "Failed to load documents" and leaves the loaded collection as it was: apart from
  the loading flag and the trace no state cell changes.
\<close>

theorem loadDocuments_rejects:
  "loadDocuments p Rejects st
     = st\<lparr>loading := False,
          trace := trace st @ [GetDocuments, ConsoleError ''Error loading documents:'',
                               ToastError ''Failed to load documents'']\<rparr>
   \<and> documents (loadDocuments p Rejects st) = documents st
   \<and> filteredDocuments (loadDocuments p Rejects st) = filteredDocuments st"
  by (simp add: loadDocuments_def emit_def)

subsection \<open>The delete workflow\<close>

text \<open>
  Claim C5. A delete request made while no document is selected shows the
  notification "No documents selected" at once, issues no request to the backend, and
  leaves the selection and the collection (indeed every state cell) unchanged.
\<close>

theorem handleDeleteSelected_empty_selection:
  assumes "Set_size (selectedDocuments st) = 0"
  shows "handleDeleteSelected p deleted response st
           = st\<lparr>trace := trace st @ [ToastError ''No documents selected'']\<rparr>
         \<and> requests (handleDeleteSelected p deleted response st) = requests st
         \<and> selectedDocuments (handleDeleteSelected p deleted response st) = selectedDocuments st
         \<and> documents (handleDeleteSelected p deleted response st) = documents st"
  using assms by (simp add: handleDeleteSelected_def emit_def requests_def is_request_def)

theorem handleDeleteSelected_empty_selection_witness:
  "Set_size (selectedDocuments (initial_state\<lparr>documents := [doc_a]\<rparr>)) = 0
   \<and> trace (handleDeleteSelected ascii_runtime (Resolves \<lparr>total_deleted = 1\<rparr>) (Resolves [])
              (initial_state\<lparr>documents := [doc_a]\<rparr>))
       = [ToastError ''No documents selected'']
   \<and> requests (handleDeleteSelected ascii_runtime (Resolves \<lparr>total_deleted = 1\<rparr>) (Resolves [])
              (initial_state\<lparr>documents := [doc_a]\<rparr>)) = []
   \<and> documents (handleDeleteSelected ascii_runtime (Resolves \<lparr>total_deleted = 1\<rparr>) (Resolves [])
              (initial_state\<lparr>documents := [doc_a]\<rparr>)) = [doc_a]"
  using handleDeleteSelected_empty_selection
          [where st = "initial_state\<lparr>documents := [doc_a]\<rparr>" and p = ascii_runtime
             and deleted = "Resolves \<lparr>total_deleted = 1\<rparr>" and response = "Resolves []"]
  by (simp add: initial_state_def Set_size_def requests_def is_request_def)

text \<open>The lookup of an identifier in the loaded collection.\<close>

lemma find_first_Some:
  "find_first P xs = Some x \<Longrightarrow> x \<in> set xs \<and> P x"
  by (induction xs) (auto split: if_splits)

lemma find_first_None:
  "find_first P xs = None \<longleftrightarrow> (\<forall>x\<in>set xs. \<not> P x)"
  by (induction xs) auto

lemma selectedFileHashes_present:
  "\<forall>i\<in>set sel. \<exists>d\<in>set docs. id_doc d = i \<Longrightarrow>
   \<exists>hs. selectedFileHashes docs sel = Inr hs
      \<and> list_all2 (\<lambda>i h. \<exists>d\<in>set docs. find_first (\<lambda>d. id_doc d = i) docs = Some d
                               \<and> id_doc d = i \<and> h = fileHash d) sel hs"
proof (induction sel)
  case Nil
  then show ?case by simp
next
  case (Cons i sel)
  from Cons.prems obtain d0 where "d0 \<in> set docs" "id_doc d0 = i" by auto
  then have "find_first (\<lambda>d. id_doc d = i) docs \<noteq> None"
    by (auto simp: find_first_None)
  then obtain d where d: "find_first (\<lambda>d. id_doc d = i) docs = Some d" by auto
  from find_first_Some [OF d] have d_in: "d \<in> set docs" "id_doc d = i" by auto
  from Cons obtain hs where hs: "selectedFileHashes docs sel = Inr hs"
      "list_all2 (\<lambda>i h. \<exists>d\<in>set docs. find_first (\<lambda>d. id_doc d = i) docs = Some d
                               \<and> id_doc d = i \<and> h = fileHash d) sel hs"
    by auto
  show ?case using d d_in hs by simp
qed

lemma selectedFileHashes_absent:
  "\<exists>i\<in>set sel. \<forall>d\<in>set docs. id_doc d \<noteq> i \<Longrightarrow> selectedFileHashes docs sel = Inl TypeError"
proof (induction sel)
  case Nil
  then show ?case by simp
next
  case (Cons i sel)
  show ?case
  proof (cases "find_first (\<lambda>d. id_doc d = i) docs")
    case None
    then show ?thesis by simp
  next
    case (Some d)
    from find_first_Some [OF Some] have "d \<in> set docs" "id_doc d = i" by auto
    with Cons.prems have "\<exists>i\<in>set sel. \<forall>d\<in>set docs. id_doc d \<noteq> i" by auto
    with Cons.IH Some show ?thesis by simp
  qed
qed

text \<open>
  Claim C9. The confirm handler resolves each selected identifier by an unguarded
  lookup in the loaded collection. If every selected identifier is the id of some
  loaded document, the resolution succeeds and yields, position by position, the
  \<open>fileHash\<close> of the first document with that id. If some selected identifier is the
  id of no loaded document, the resolution raises a \<open>TypeError\<close>; it is raised inside
  the handler's \<open>try\<close> block, so the handler reports "Delete Failed", and no request
  has been issued.
\<close>

theorem handleDeleteSelected_resolution:
  "((\<forall>i\<in>set (selectedDocuments st). \<exists>d\<in>set (documents st). id_doc d = i) \<longrightarrow>
      (\<exists>hs. selectedFileHashes (documents st) (selectedDocuments st) = Inr hs
         \<and> list_all2 (\<lambda>i h. \<exists>d\<in>set (documents st).
                          find_first (\<lambda>d. id_doc d = i) (documents st) = Some d
                          \<and> id_doc d = i \<and> h = fileHash d) (selectedDocuments st) hs))
   \<and> ((\<exists>i\<in>set (selectedDocuments st). \<forall>d\<in>set (documents st). id_doc d \<noteq> i) \<longrightarrow>
        selectedFileHashes (documents st) (selectedDocuments st) = Inl TypeError
        \<and> trace (handleDeleteSelected p deleted response st)
            = trace st @ [ConsoleError ''Error deleting documents:'', ToastError ''Delete Failed'']
        \<and> requests (handleDeleteSelected p deleted response st) = requests st)"
proof (intro conjI impI)
  assume "\<forall>i\<in>set (selectedDocuments st). \<exists>d\<in>set (documents st). id_doc d = i"
  then show "\<exists>hs. selectedFileHashes (documents st) (selectedDocuments st) = Inr hs
         \<and> list_all2 (\<lambda>i h. \<exists>d\<in>set (documents st).
                          find_first (\<lambda>d. id_doc d = i) (documents st) = Some d
                          \<and> id_doc d = i \<and> h = fileHash d) (selectedDocuments st) hs"
    by (rule selectedFileHashes_present)
next
  assume a: "\<exists>i\<in>set (selectedDocuments st). \<forall>d\<in>set (documents st). id_doc d \<noteq> i"
  then show r: "selectedFileHashes (documents st) (selectedDocuments st) = Inl TypeError"
    by (rule selectedFileHashes_absent)
  from a have ne: "selectedDocuments st \<noteq> []" by auto
  show "trace (handleDeleteSelected p deleted response st)
            = trace st @ [ConsoleError ''Error deleting documents:'', ToastError ''Delete Failed'']"
    using r ne by (simp add: handleDeleteSelected_def Set_size_def deleteFinally_def deleteCatch_def emit_def)
  show "requests (handleDeleteSelected p deleted response st) = requests st"
    using r ne by (simp add: handleDeleteSelected_def Set_size_def deleteFinally_def deleteCatch_def emit_def requests_def is_request_def)
qed

theorem handleDeleteSelected_resolution_witness:
  "set [''b.pdf'', ''a.pdf''] \<subseteq> id_doc ` set [doc_a, doc_b]
   \<and> selectedFileHashes [doc_a, doc_b] [''b.pdf'', ''a.pdf''] = Inr [Some ''hash-b'', Some ''hash-a'']
   \<and> ''gone.pdf'' \<in> set [''a.pdf'', ''gone.pdf''] - id_doc ` set [doc_a, doc_b]
   \<and> trace (handleDeleteSelected ascii_runtime (Resolves \<lparr>total_deleted = 1\<rparr>) (Resolves [])
        (initial_state\<lparr>documents := [doc_a, doc_b], selectedDocuments := [''a.pdf'', ''gone.pdf'']\<rparr>))
       = [ConsoleError ''Error deleting documents:'', ToastError ''Delete Failed'']"
  using handleDeleteSelected_resolution
          [where st = "initial_state\<lparr>documents := [doc_a, doc_b],
                                      selectedDocuments := [''b.pdf'', ''a.pdf'']\<rparr>"
             and p = ascii_runtime and deleted = Rejects and response = Rejects]
        handleDeleteSelected_resolution
          [where st = "initial_state\<lparr>documents := [doc_a, doc_b],
                                      selectedDocuments := [''a.pdf'', ''gone.pdf'']\<rparr>"
             and p = ascii_runtime and deleted = "Resolves \<lparr>total_deleted = 1\<rparr>"
             and response = "Resolves []"]
  by (simp add: initial_state_def doc_a_def doc_b_def)

text \<open>
  Claim C1 as the code has it. When the bulk delete request is rejected, the handler
  shows "Delete Failed", closes the confirmation dialog and triggers no reload; the
  selection and the collection stay as they were (the statement that clears the
  selection comes after the awaited request inside the \<open>try\<close> block and is skipped).
\<close>

theorem handleDeleteSelected_request_rejects:
  assumes "Set_size (selectedDocuments st) \<noteq> 0"
    and "selectedFileHashes (documents st) (selectedDocuments st) = Inr hashes"
  shows "handleDeleteSelected p Rejects response st
           = st\<lparr>showDeleteConfirm := False,
                trace := trace st @ [DeleteDocuments hashes,
                                     ConsoleError ''Error deleting documents:'',
                                     ToastError ''Delete Failed'']\<rparr>
         \<and> selectedDocuments (handleDeleteSelected p Rejects response st) = selectedDocuments st
         \<and> documents (handleDeleteSelected p Rejects response st) = documents st
         \<and> reloads (handleDeleteSelected p Rejects response st) = reloads st"
  using assms
  by (simp add: handleDeleteSelected_def deleteFinally_def deleteCatch_def emit_def reloads_def)

theorem handleDeleteSelected_request_rejects_witness:
  "Set_size [''a.pdf''] \<noteq> 0
   \<and> selectedFileHashes [doc_a] [''a.pdf''] = Inr [Some ''hash-a'']
   \<and> handleDeleteSelected ascii_runtime Rejects (Resolves [])
        (initial_state\<lparr>documents := [doc_a], selectedDocuments := [''a.pdf'']\<rparr>)
       = initial_state\<lparr>documents := [doc_a], selectedDocuments := [''a.pdf''],
            trace := [DeleteDocuments [Some ''hash-a''],
                      ConsoleError ''Error deleting documents:'', ToastError ''Delete Failed'']\<rparr>"
proof -
  have h1: "Set_size (selectedDocuments
              (initial_state\<lparr>documents := [doc_a], selectedDocuments := [''a.pdf'']\<rparr>)) \<noteq> 0"
    by (simp add: Set_size_def)
  have h2: "selectedFileHashes
              (documents (initial_state\<lparr>documents := [doc_a], selectedDocuments := [''a.pdf'']\<rparr>))
              (selectedDocuments
                (initial_state\<lparr>documents := [doc_a], selectedDocuments := [''a.pdf'']\<rparr>))
            = Inr [Some ''hash-a'']"
    by (simp add: doc_a_def)
  show ?thesis
    using h1 h2 handleDeleteSelected_request_rejects [OF h1 h2, of ascii_runtime "Resolves []"]
    by (simp add: initial_state_def)
qed

text \<open>
  Claim C1 as stated requires an empty selection after a rejected delete request.
  With one document loaded and selected, the selection is still non-empty.
\<close>

theorem handleDeleteSelected_rejects_keeps_selection:
  "selectedDocuments
     (handleDeleteSelected ascii_runtime Rejects (Resolves [])
        (initial_state\<lparr>documents := [doc_a], selectedDocuments := [''a.pdf'']\<rparr>)) \<noteq> []"
  by (simp add: handleDeleteSelected_def deleteFinally_def deleteCatch_def emit_def
        initial_state_def Set_size_def doc_a_def)

text \<open>
  Claim C4. When the bulk delete request resolves, the handler shows a success
  notification that carries the count if the reported count is positive, and the
  failure notification "No files were deleted" otherwise (in particular for count 0);
  in both cases the selection is cleared and exactly one reload of the collection is
  requested.
\<close>

theorem handleDeleteSelected_request_resolves:
  assumes "Set_size (selectedDocuments st) \<noteq> 0"
    and "selectedFileHashes (documents st) (selectedDocuments st) = Inr hashes"
  shows "trace (handleDeleteSelected p (Resolves result) response st)
           = trace st
             @ [DeleteDocuments hashes,
                if total_deleted result > 0
                then ToastSuccess (''Delete Successfully - '' @ show_int (total_deleted result)
                                   @ '' files deleted'')
                else ToastError ''No files were deleted'',
                GetDocuments]
             @ (case response of
                  Rejects \<Rightarrow> [ConsoleError ''Error loading documents:'',
                              ToastError ''Failed to load documents'']
                | Resolves pdfs \<Rightarrow> [])
         \<and> selectedDocuments (handleDeleteSelected p (Resolves result) response st) = []
         \<and> reloads (handleDeleteSelected p (Resolves result) response st) = reloads st + 1"
  using assms
  by (cases response)
     (simp_all add: handleDeleteSelected_def deleteFinally_def loadDocuments_def emit_def
        reloads_def)

theorem handleDeleteSelected_request_resolves_witness:
  "Set_size [''a.pdf'', ''b.pdf''] \<noteq> 0
   \<and> selectedFileHashes [doc_a, doc_b] [''a.pdf'', ''b.pdf''] = Inr [Some ''hash-a'', Some ''hash-b'']
   \<and> trace (handleDeleteSelected ascii_runtime (Resolves \<lparr>total_deleted = 2\<rparr>) (Resolves [])
        (initial_state\<lparr>documents := [doc_a, doc_b], selectedDocuments := [''a.pdf'', ''b.pdf'']\<rparr>))
       = [DeleteDocuments [Some ''hash-a'', Some ''hash-b''],
          ToastSuccess ''Delete Successfully - 2 files deleted'', GetDocuments]
   \<and> trace (handleDeleteSelected ascii_runtime (Resolves \<lparr>total_deleted = 0\<rparr>) (Resolves [])
        (initial_state\<lparr>documents := [doc_a, doc_b], selectedDocuments := [''a.pdf'', ''b.pdf'']\<rparr>))
       = [DeleteDocuments [Some ''hash-a'', Some ''hash-b''],
          ToastError ''No files were deleted'', GetDocuments]
   \<and> selectedDocuments (handleDeleteSelected ascii_runtime (Resolves \<lparr>total_deleted = 2\<rparr>) (Resolves [])
        (initial_state\<lparr>documents := [doc_a, doc_b], selectedDocuments := [''a.pdf'', ''b.pdf'']\<rparr>))
       = []"
proof -
  let ?st = "initial_state\<lparr>documents := [doc_a, doc_b], selectedDocuments := [''a.pdf'', ''b.pdf'']\<rparr>"
  have h1: "Set_size (selectedDocuments ?st) \<noteq> 0"
    by (simp add: Set_size_def)
  have h2: "selectedFileHashes (documents ?st) (selectedDocuments ?st)
            = Inr [Some ''hash-a'', Some ''hash-b'']"
    by (simp add: doc_a_def doc_b_def)
  show ?thesis
    using h1 h2
      handleDeleteSelected_request_resolves [OF h1 h2, of ascii_runtime "\<lparr>total_deleted = 2\<rparr>" "Resolves []"]
      handleDeleteSelected_request_resolves [OF h1 h2, of ascii_runtime "\<lparr>total_deleted = 0\<rparr>" "Resolves []"]
    by (simp add: initial_state_def show_int_def digit_char_def)
qed

subsection \<open>Selection\<close>

text \<open>A set built from a list has the list's elements, once each, in their first order.\<close>

lemma set_foldl_Set_add: "set (foldl Set_add acc xs) = set acc \<union> set xs"
  by (induction xs arbitrary: acc) (auto simp: Set_add_def)

lemma distinct_foldl_Set_add: "distinct acc \<Longrightarrow> distinct (foldl Set_add acc xs)"
  by (induction xs arbitrary: acc) (auto simp: Set_add_def)

lemma foldl_Set_add_distinct: "distinct (acc @ xs) \<Longrightarrow> foldl Set_add acc xs = acc @ xs"
proof (induction xs arbitrary: acc)
  case Nil
  then show ?case by simp
next
  case (Cons x xs)
  from Cons.prems have "x \<notin> set acc" and "distinct ((acc @ [x]) @ xs)" by auto
  with Cons.IH [of "acc @ [x]"] show ?case by (simp add: Set_add_def)
qed

lemma set_Set_of: "set (Set_of xs) = set xs"
  by (simp add: Set_of_def set_foldl_Set_add)

lemma distinct_Set_of: "distinct (Set_of xs)"
  by (simp add: Set_of_def distinct_foldl_Set_add)

lemma Set_of_distinct: "distinct xs \<Longrightarrow> Set_of xs = xs"
  using foldl_Set_add_distinct [of "[]" xs] by (simp add: Set_of_def)

lemma Set_of_eq_Nil: "Set_of xs = [] \<longleftrightarrow> xs = []"
  by (metis set_Set_of set_empty)

lemma same_length_iff_covers:
  assumes "distinct xs" and "distinct ys" and "set xs \<subseteq> set ys"
  shows "length xs = length ys \<longleftrightarrow> set ys \<subseteq> set xs"
proof
  assume "length xs = length ys"
  with assms have "card (set xs) = card (set ys)" by (simp add: distinct_card)
  with assms(3) have "set xs = set ys" by (simp add: card_subset_eq)
  then show "set ys \<subseteq> set xs" by simp
next
  assume "set ys \<subseteq> set xs"
  with assms(3) have "set xs = set ys" by auto
  then have "card (set xs) = card (set ys)" by simp
  with assms show "length xs = length ys" by (simp add: distinct_card)
qed

text \<open>
  Claim C2 as the code has it. \<open>handleSelectAll\<close> compares two counts: it clears the
  whole selection when the number of selected identifiers equals the number of
  visible rows, and otherwise makes the selection exactly the set of visible
  identifiers. So the selection is empty afterwards exactly when the counts are equal
  or no row is visible. When the visible identifiers are pairwise distinct and only
  visible identifiers are selected, the counts agree exactly when the visible set is
  fully selected. Two consecutive calls on an unchanged visible set with pairwise
  distinct identifiers leave the selection empty if the counts differed at first; if
  the counts agreed at first, the second call selects the whole visible set again.
\<close>

theorem handleSelectAll_by_count:
  "(Set_size (selectedDocuments st) = length (filteredDocuments st)
      \<longrightarrow> selectedDocuments (handleSelectAll st) = [])
   \<and> (Set_size (selectedDocuments st) \<noteq> length (filteredDocuments st)
      \<longrightarrow> set (selectedDocuments (handleSelectAll st)) = id_doc ` set (filteredDocuments st)
          \<and> distinct (selectedDocuments (handleSelectAll st)))
   \<and> (distinct (selectedDocuments st) \<and> distinct (map id_doc (filteredDocuments st))
       \<and> set (selectedDocuments st) \<subseteq> id_doc ` set (filteredDocuments st)
      \<longrightarrow> (Set_size (selectedDocuments st) = length (filteredDocuments st)
            \<longleftrightarrow> id_doc ` set (filteredDocuments st) \<subseteq> set (selectedDocuments st)))
   \<and> (distinct (map id_doc (filteredDocuments st))
       \<and> Set_size (selectedDocuments st) \<noteq> length (filteredDocuments st)
      \<longrightarrow> selectedDocuments (handleSelectAll (handleSelectAll st)) = [])
   \<and> (distinct (map id_doc (filteredDocuments st))
       \<and> Set_size (selectedDocuments st) = length (filteredDocuments st)
      \<longrightarrow> selectedDocuments (handleSelectAll (handleSelectAll st))
            = (if filteredDocuments st = [] then [] else map id_doc (filteredDocuments st)))
   \<and> filteredDocuments (handleSelectAll st) = filteredDocuments st
   \<and> (selectedDocuments (handleSelectAll st) = []
        \<longleftrightarrow> Set_size (selectedDocuments st) = length (filteredDocuments st)
            \<or> filteredDocuments st = [])"
proof (intro conjI impI)
  assume "Set_size (selectedDocuments st) = length (filteredDocuments st)"
  then show "selectedDocuments (handleSelectAll st) = []"
    by (simp add: handleSelectAll_def)
next
  assume "Set_size (selectedDocuments st) \<noteq> length (filteredDocuments st)"
  then show "set (selectedDocuments (handleSelectAll st)) = id_doc ` set (filteredDocuments st)"
    and "distinct (selectedDocuments (handleSelectAll st))"
    by (simp_all add: handleSelectAll_def set_Set_of distinct_Set_of)
next
  assume "distinct (selectedDocuments st) \<and> distinct (map id_doc (filteredDocuments st))
       \<and> set (selectedDocuments st) \<subseteq> id_doc ` set (filteredDocuments st)"
  then show "Set_size (selectedDocuments st) = length (filteredDocuments st)
            \<longleftrightarrow> id_doc ` set (filteredDocuments st) \<subseteq> set (selectedDocuments st)"
    using same_length_iff_covers [of "selectedDocuments st" "map id_doc (filteredDocuments st)"]
    by (simp add: Set_size_def)
next
  assume a: "distinct (map id_doc (filteredDocuments st))
       \<and> Set_size (selectedDocuments st) \<noteq> length (filteredDocuments st)"
  then have "selectedDocuments (handleSelectAll st) = map id_doc (filteredDocuments st)"
    by (simp add: handleSelectAll_def Set_of_distinct)
  moreover have "filteredDocuments (handleSelectAll st) = filteredDocuments st"
    by (simp add: handleSelectAll_def)
  ultimately show "selectedDocuments (handleSelectAll (handleSelectAll st)) = []"
    by (simp add: handleSelectAll_def [of "handleSelectAll st"] Set_size_def)
next
  assume a: "distinct (map id_doc (filteredDocuments st))
       \<and> Set_size (selectedDocuments st) = length (filteredDocuments st)"
  then have "selectedDocuments (handleSelectAll st) = []"
    by (simp add: handleSelectAll_def)
  moreover have "filteredDocuments (handleSelectAll st) = filteredDocuments st"
    by (simp add: handleSelectAll_def)
  ultimately show "selectedDocuments (handleSelectAll (handleSelectAll st))
            = (if filteredDocuments st = [] then [] else map id_doc (filteredDocuments st))"
    using a by (simp add: handleSelectAll_def [of "handleSelectAll st"] Set_size_def Set_of_distinct)
next
  show "filteredDocuments (handleSelectAll st) = filteredDocuments st"
    by (simp add: handleSelectAll_def)
next
  show "selectedDocuments (handleSelectAll st) = []
        \<longleftrightarrow> Set_size (selectedDocuments st) = length (filteredDocuments st)
            \<or> filteredDocuments st = []"
    by (simp add: handleSelectAll_def Set_of_eq_Nil)
qed

theorem handleSelectAll_by_count_witness:
  "Set_size [''a.pdf''] \<noteq> length [doc_a, doc_b]
   \<and> distinct (map id_doc [doc_a, doc_b])
   \<and> set [''a.pdf''] \<subseteq> id_doc ` set [doc_a, doc_b]
   \<and> set (selectedDocuments (handleSelectAll
        (initial_state\<lparr>filteredDocuments := [doc_a, doc_b], selectedDocuments := [''a.pdf'']\<rparr>)))
       = {''a.pdf'', ''b.pdf''}
   \<and> selectedDocuments (handleSelectAll (handleSelectAll
        (initial_state\<lparr>filteredDocuments := [doc_a, doc_b], selectedDocuments := [''a.pdf'']\<rparr>)))
       = []
   \<and> Set_size [''a.pdf'', ''b.pdf''] = length [doc_a, doc_b]
   \<and> selectedDocuments (handleSelectAll
        (initial_state\<lparr>filteredDocuments := [doc_a, doc_b],
                        selectedDocuments := [''a.pdf'', ''b.pdf'']\<rparr>))
       = []
   \<and> selectedDocuments (handleSelectAll (handleSelectAll
        (initial_state\<lparr>filteredDocuments := [doc_a, doc_b],
                        selectedDocuments := [''a.pdf'', ''b.pdf'']\<rparr>)))
       = [''a.pdf'', ''b.pdf'']
   \<and> Set_size [''b.pdf''] \<noteq> length ([] :: document list)
   \<and> selectedDocuments (handleSelectAll
        (initial_state\<lparr>filteredDocuments := [], selectedDocuments := [''b.pdf'']\<rparr>))
       = []"
  using handleSelectAll_by_count
          [of "initial_state\<lparr>filteredDocuments := [], selectedDocuments := [''b.pdf'']\<rparr>"]
        handleSelectAll_by_count
          [of "initial_state\<lparr>filteredDocuments := [doc_a, doc_b], selectedDocuments := [''a.pdf'']\<rparr>"]
        handleSelectAll_by_count
          [of "initial_state\<lparr>filteredDocuments := [doc_a, doc_b],
                               selectedDocuments := [''a.pdf'', ''b.pdf'']\<rparr>"]
  by (simp add: initial_state_def Set_size_def doc_a_def doc_b_def insert_commute)

text \<open>
  Claim C2 as stated fails in both parts. With \<open>b.pdf\<close> selected and only \<open>a.pdf\<close>
  visible, the visible set is not fully selected and yet the selection is cleared.
  With \<open>a.pdf\<close> visible and selected, two consecutive calls end with \<open>a.pdf\<close> selected.
\<close>

theorem handleSelectAll_not_by_membership:
  "\<not> id_doc ` set (filteredDocuments
        (initial_state\<lparr>documents := [doc_a, doc_b], filteredDocuments := [doc_a],
                        selectedDocuments := [''b.pdf'']\<rparr>))
      \<subseteq> set (selectedDocuments
        (initial_state\<lparr>documents := [doc_a, doc_b], filteredDocuments := [doc_a],
                        selectedDocuments := [''b.pdf'']\<rparr>))
   \<and> selectedDocuments (handleSelectAll
        (initial_state\<lparr>documents := [doc_a, doc_b], filteredDocuments := [doc_a],
                        selectedDocuments := [''b.pdf'']\<rparr>)) = []
   \<and> selectedDocuments (handleSelectAll (handleSelectAll
        (initial_state\<lparr>documents := [doc_a], filteredDocuments := [doc_a],
                        selectedDocuments := [''a.pdf'']\<rparr>))) \<noteq> []"
  by (simp add: handleSelectAll_def initial_state_def Set_size_def Set_of_def Set_add_def
        doc_a_def doc_b_def)

subsection \<open>Filtering\<close>

text \<open>What the comparisons and the substring test of the filters mean.\<close>

lemma includes_str_sublist: "includes_str s t \<longleftrightarrow> sublist t s"
  by (induction s) (simp_all add: sublist_Cons_right)

lemma number_ge_Finite:
  "number_ge (Finite x) n
     = (case n of NaN \<Rightarrow> False | NegInfinity \<Rightarrow> True | Finite v \<Rightarrow> v \<le> x | Infinity \<Rightarrow> False)"
  by (cases n) (auto simp: number_ge_def)

lemma date_ge_iff:
  "date_ge a b \<longleftrightarrow> (\<exists>t u. b = Instant t \<and> a = Instant u \<and> t \<le> u)"
  by (cases a; cases b) (auto simp: date_ge_def number_ge_def)

text \<open>Sorting keeps the elements.\<close>

lemma set_insert_sorted: "set (insert_sorted cmp x xs) = insert x (set xs)"
  by (induction xs) auto

lemma set_Array_sort: "set (Array_sort cmp xs) = set xs"
  by (induction xs) (simp_all add: Array_sort_def set_insert_sorted)

lemma set_sortStage: "set (sortStage p st xs) = set xs"
  by (simp add: sortStage_def set_Array_sort split: option.split)

text \<open>The documents that each filter block keeps.\<close>

lemma set_searchStage:
  "d \<in> set (searchStage p st xs) \<longleftrightarrow>
     d \<in> set xs \<and> (searchTerm st \<noteq> [] \<longrightarrow>
                     sublist (toLowerCase p (searchTerm st)) (toLowerCase p (name d)))"
  by (auto simp: searchStage_def includes_str_sublist)

lemma set_sizeStage:
  "d \<in> set (sizeStage p st xs) \<longleftrightarrow>
     d \<in> set xs \<and> (sizeFilter st \<noteq> [] \<longrightarrow>
        (case parseFloat p (sizeFilter st) of
           NaN \<Rightarrow> True
         | NegInfinity \<Rightarrow> True
         | Finite v \<Rightarrow> v \<le> real_of_int (size_doc d) / 1048576
         | Infinity \<Rightarrow> False))"
  by (cases "parseFloat p (sizeFilter st)") (auto simp: sizeStage_def number_ge_Finite)

lemma set_dateStage:
  "d \<in> set (dateStage p st xs) \<longleftrightarrow>
     d \<in> set xs \<and> (dateFilter st \<noteq> [] \<longrightarrow>
        (\<exists>t u. newDate p (dateFilter st) = Instant t \<and> uploadDate d = Instant u \<and> t \<le> u))"
  by (auto simp: dateStage_def date_ge_iff)









text \<open>
  Claim C6. For every collection and every filter state, the documents of the derived
  view are exactly the documents of the collection that satisfy every active filter:
  the lower-cased search term is a substring of the lower-cased name, the size in
  bytes divided by 1048576 is at least the parsed minimum, and the upload date is a
  valid instant at or after the parsed threshold. The filters compose by conjunction.
  In particular, for \<open>a.pdf\<close> (1048576 bytes) and \<open>b.pdf\<close> (2097152 bytes) and the minimum
  size \<open>1.5\<close> the view is exactly \<open>[b.pdf]\<close>.
\<close>

theorem filterAndSortDocuments_conjunctive:
  "(d \<in> set (filteredDocuments (filterAndSortDocuments p st)) \<longleftrightarrow>
      d \<in> set (documents st)
      \<and> (searchTerm st \<noteq> [] \<longrightarrow>
           sublist (toLowerCase p (searchTerm st)) (toLowerCase p (name d)))
      \<and> (sizeFilter st \<noteq> [] \<longrightarrow>
           (case parseFloat p (sizeFilter st) of
              NaN \<Rightarrow> True
            | NegInfinity \<Rightarrow> True
            | Finite v \<Rightarrow> v \<le> real_of_int (size_doc d) / 1048576
            | Infinity \<Rightarrow> False))
      \<and> (dateFilter st \<noteq> [] \<longrightarrow>
           (\<exists>t u. newDate p (dateFilter st) = Instant t \<and> uploadDate d = Instant u \<and> t \<le> u)))
   \<and> filteredDocuments (filterAndSortDocuments ascii_runtime
        (initial_state\<lparr>documents := [doc_a, doc_b], sizeFilter := ''1.5''\<rparr>)) = [doc_b]"
proof
  show "d \<in> set (filteredDocuments (filterAndSortDocuments p st)) \<longleftrightarrow>
      d \<in> set (documents st)
      \<and> (searchTerm st \<noteq> [] \<longrightarrow>
           sublist (toLowerCase p (searchTerm st)) (toLowerCase p (name d)))
      \<and> (sizeFilter st \<noteq> [] \<longrightarrow>
           (case parseFloat p (sizeFilter st) of
              NaN \<Rightarrow> True
            | NegInfinity \<Rightarrow> True
            | Finite v \<Rightarrow> v \<le> real_of_int (size_doc d) / 1048576
            | Infinity \<Rightarrow> False))
      \<and> (dateFilter st \<noteq> [] \<longrightarrow>
           (\<exists>t u. newDate p (dateFilter st) = Instant t \<and> uploadDate d = Instant u \<and> t \<le> u))"
    unfolding filterAndSortDocuments_def
    by (simp add: set_sortStage set_dateStage set_sizeStage set_searchStage conj_ac)
next
  have pf: "parseFloat ascii_runtime ''1.5'' = Finite (3 / 2)"
    by (simp add: ascii_runtime_def decimal_parseFloat_def decimal_of_def digit_value_def)
  show "filteredDocuments (filterAndSortDocuments ascii_runtime
        (initial_state\<lparr>documents := [doc_a, doc_b], sizeFilter := ''1.5''\<rparr>)) = [doc_b]"
    by (simp add: filterAndSortDocuments_def initial_state_def sortStage_def dateStage_def
          sizeStage_def searchStage_def pf number_ge_def doc_a_def doc_b_def)
qed

theorem filterAndSortDocuments_conjunctive_witness:
  "doc_b \<in> set (filteredDocuments (filterAndSortDocuments ascii_runtime
      (initial_state\<lparr>documents := [doc_a, doc_b, doc_upper], searchTerm := ''PDF'',
                      sizeFilter := ''1.5'', dateFilter := ''2024-01-15''\<rparr>)))
   \<and> doc_a \<notin> set (filteredDocuments (filterAndSortDocuments ascii_runtime
      (initial_state\<lparr>documents := [doc_a, doc_b, doc_upper], searchTerm := ''PDF'',
                      sizeFilter := ''1.5'', dateFilter := ''2024-01-15''\<rparr>)))
   \<and> doc_upper \<notin> set (filteredDocuments (filterAndSortDocuments ascii_runtime
      (initial_state\<lparr>documents := [doc_a, doc_b, doc_upper], searchTerm := ''PDF'',
                      sizeFilter := ''1.5'', dateFilter := ''2024-01-15''\<rparr>)))"
proof -
  let ?st = "initial_state\<lparr>documents := [doc_a, doc_b, doc_upper], searchTerm := ''PDF'',
                      sizeFilter := ''1.5'', dateFilter := ''2024-01-15''\<rparr>"
  have pf: "parseFloat ascii_runtime ''1.5'' = Finite (3 / 2)"
    by (simp add: ascii_runtime_def decimal_parseFloat_def decimal_of_def digit_value_def)
  have nd: "newDate ascii_runtime ''2024-01-15'' = Instant 1705276800000"
    by (simp add: ascii_runtime_def iso_newDate_def decimal_of_def digit_value_def
          days_in_month_def days_from_civil_def leap_year_def)
  have lc: "toLowerCase ascii_runtime ''PDF'' = ''pdf''"
           "toLowerCase ascii_runtime ''b.pdf'' = ''b.pdf''"
    by (simp_all add: ascii_runtime_def ascii_toLowerCase_def ascii_lower_def)
  have sub: "sublist ''pdf'' ''b.pdf''"
    by (simp add: sublist_Cons_right)
  show ?thesis
    using filterAndSortDocuments_conjunctive [of doc_b ascii_runtime ?st]
          filterAndSortDocuments_conjunctive [of doc_a ascii_runtime ?st]
          filterAndSortDocuments_conjunctive [of doc_upper ascii_runtime ?st]
    by (simp add: initial_state_def pf nd lc sub doc_a_def doc_b_def doc_upper_def)
qed

subsection \<open>Sorting\<close>

text \<open>
  With a comparison function that decides a total preorder, the sort returns a list
  ordered by it, and it keeps distinctness under any key.
\<close>

lemma sorted_wrt_insert_sorted:
  assumes le: "\<And>a b. cmp a b \<le> 0 \<longleftrightarrow> R a b"
    and total: "\<And>a b. R a b \<or> R b a"
    and trans: "\<And>a b c. R a b \<Longrightarrow> R b c \<Longrightarrow> R a c"
  shows "sorted_wrt R ys \<Longrightarrow> sorted_wrt R (insert_sorted cmp x ys)"
proof (induction ys)
  case Nil
  then show ?case by simp
next
  case (Cons y ys)
  show ?case
  proof (cases "R x y")
    case True
    with Cons.prems have "\<forall>z\<in>set (y # ys). R x z"
      using trans by auto
    with True Cons.prems show ?thesis by (simp add: le)
  next
    case False
    with total have "R y x" by blast
    with False Cons show ?thesis by (simp add: le set_insert_sorted)
  qed
qed

lemma sorted_wrt_Array_sort:
  assumes le: "\<And>a b. cmp a b \<le> 0 \<longleftrightarrow> R a b"
    and total: "\<And>a b. R a b \<or> R b a"
    and trans: "\<And>a b c. R a b \<Longrightarrow> R b c \<Longrightarrow> R a c"
  shows "sorted_wrt R (Array_sort cmp xs)"
proof (induction xs)
  case Nil
  then show ?case by (simp add: Array_sort_def)
next
  case (Cons x xs)
  have "sorted_wrt R (insert_sorted cmp x (Array_sort cmp xs))"
    using le total trans Cons.IH by (rule sorted_wrt_insert_sorted)
  then show ?case by (simp add: Array_sort_def)
qed

lemma distinct_map_insert_sorted:
  "distinct (map f (insert_sorted cmp x ys)) \<longleftrightarrow> f x \<notin> f ` set ys \<and> distinct (map f ys)"
  by (induction ys) (auto simp: set_insert_sorted)

lemma distinct_map_Array_sort:
  "distinct (map f (Array_sort cmp xs)) \<longleftrightarrow> distinct (map f xs)"
  by (induction xs) (simp_all add: Array_sort_def distinct_map_insert_sorted set_Array_sort [unfolded Array_sort_def])

lemma compareFn_Name_Asc:
  "compareFn p Name Asc a b \<le> 0 \<longleftrightarrow> toLowerCase p (name a) \<le> toLowerCase p (name b)"
  by (auto simp: compareFn_def Let_def)

lemma compareFn_Name_Desc:
  "compareFn p Name Desc a b \<le> 0 \<longleftrightarrow> toLowerCase p (name b) \<le> toLowerCase p (name a)"
  by (auto simp: compareFn_def Let_def)

lemma Array_sort_Name_rev:
  assumes "distinct (map (\<lambda>d. toLowerCase p (name d)) xs)"
  shows "rev (Array_sort (compareFn p Name Asc) xs) = Array_sort (compareFn p Name Desc) xs"
proof -
  let ?k = "\<lambda>d. toLowerCase p (name d)"
  let ?A = "Array_sort (compareFn p Name Asc) xs"
  let ?D = "Array_sort (compareFn p Name Desc) xs"
  have sa: "sorted_wrt (\<lambda>a b. ?k a \<le> ?k b) ?A"
    by (rule sorted_wrt_Array_sort) (auto simp: compareFn_Name_Asc)
  have sd: "sorted_wrt (\<lambda>a b. ?k b \<le> ?k a) ?D"
    by (rule sorted_wrt_Array_sort) (auto simp: compareFn_Name_Desc)
  from sd have srd: "sorted_wrt (\<lambda>a b. ?k a \<le> ?k b) (rev ?D)"
    by (simp add: sorted_wrt_rev)
  have 1: "sorted (map ?k ?A)" using sa by (simp add: sorted_map)
  have 2: "sorted (map ?k (rev ?D))" using srd by (simp add: sorted_map)
  have 3: "distinct (map ?k ?A)" using assms by (simp add: distinct_map_Array_sort)
  have "distinct (map ?k ?D)" using assms by (simp add: distinct_map_Array_sort)
  then have 4: "distinct (map ?k (rev ?D))" by (simp add: rev_map [symmetric])
  have 5: "set (map ?k ?A) = set (map ?k (rev ?D))" by (simp add: set_Array_sort)
  from 1 2 3 4 5 have eq: "map ?k ?A = map ?k (rev ?D)"
    by (intro sorted_distinct_set_unique) 
  have "inj_on ?k (set xs)" using assms by (simp add: distinct_map)
  then have "inj_on ?k (set ?A \<union> set (rev ?D))" by (simp add: set_Array_sort)
  with eq have "?A = rev ?D" by (simp add: inj_on_map_eq_map)
  then show ?thesis by simp
qed

lemma stages_ignore_sortConfig:
  "searchStage p (st\<lparr>sortConfig := c\<rparr>) xs = searchStage p st xs"
  "sizeStage p (st\<lparr>sortConfig := c\<rparr>) xs = sizeStage p st xs"
  "dateStage p (st\<lparr>sortConfig := c\<rparr>) xs = dateStage p st xs"
  by (simp_all add: searchStage_def sizeStage_def dateStage_def)

lemma distinct_map_stages:
  assumes "distinct (map f xs)"
  shows "distinct (map f (dateStage p st (sizeStage p st (searchStage p st xs))))"
  using assms
  by (simp add: searchStage_def sizeStage_def dateStage_def Let_def distinct_map_filter)

text \<open>
  Claim C7 as the code has it. The comparison on names is made on the lower-cased
  names. For every collection whose lower-cased names are pairwise distinct, the
  view sorted by name ascending, reversed, is the view sorted by name descending.
\<close>

theorem sort_by_name_reverses:
  assumes "distinct (map (\<lambda>d. toLowerCase p (name d)) (documents st))"
  shows "rev (filteredDocuments (filterAndSortDocuments p
                (st\<lparr>sortConfig := \<lparr>key = Some Name, direction = Asc\<rparr>\<rparr>)))
         = filteredDocuments (filterAndSortDocuments p
                (st\<lparr>sortConfig := \<lparr>key = Some Name, direction = Desc\<rparr>\<rparr>))"
proof -
  let ?xs = "dateStage p st (sizeStage p st (searchStage p st (documents st)))"
  have "distinct (map (\<lambda>d. toLowerCase p (name d)) ?xs)"
    using assms by (rule distinct_map_stages)
  then have "rev (Array_sort (compareFn p Name Asc) ?xs) = Array_sort (compareFn p Name Desc) ?xs"
    by (rule Array_sort_Name_rev)
  then show ?thesis
    by (simp add: filterAndSortDocuments_def stages_ignore_sortConfig sortStage_def)
qed

theorem sort_by_name_reverses_witness:
  "distinct (map (\<lambda>d. toLowerCase ascii_runtime (name d)) [doc_b, doc_upper])
   \<and> filteredDocuments (filterAndSortDocuments ascii_runtime
        (initial_state\<lparr>documents := [doc_b, doc_upper],
                        sortConfig := \<lparr>key = Some Name, direction = Asc\<rparr>\<rparr>)) = [doc_upper, doc_b]
   \<and> filteredDocuments (filterAndSortDocuments ascii_runtime
        (initial_state\<lparr>documents := [doc_b, doc_upper],
                        sortConfig := \<lparr>key = Some Name, direction = Desc\<rparr>\<rparr>)) = [doc_b, doc_upper]"
proof -
  let ?st = "initial_state\<lparr>documents := [doc_b, doc_upper]\<rparr>"
  have lc: "toLowerCase ascii_runtime (name doc_b) = ''b.pdf''"
           "toLowerCase ascii_runtime (name doc_upper) = ''a.pdf''"
    by (simp_all add: ascii_runtime_def ascii_toLowerCase_def ascii_lower_def doc_b_def doc_upper_def)
  have h: "distinct (map (\<lambda>d. toLowerCase ascii_runtime (name d)) (documents ?st))"
    by (simp add: lc)
  have asc: "filteredDocuments (filterAndSortDocuments ascii_runtime
        (?st\<lparr>sortConfig := \<lparr>key = Some Name, direction = Asc\<rparr>\<rparr>)) = [doc_upper, doc_b]"
    by (simp add: filterAndSortDocuments_def initial_state_def sortStage_def dateStage_def
          sizeStage_def searchStage_def Array_sort_def compareFn_def lc)
  show ?thesis
    using h asc sort_by_name_reverses [OF h]
    by (simp add: initial_state_def)
qed

text \<open>
  Claim C7 as stated asks only for distinct names. \<open>A.pdf\<close> and \<open>a.pdf\<close> are distinct,
  the comparison function reports them equal in both directions, the stable sort
  keeps them in the order of the collection, and the reversed ascending view differs
  from the descending one.
\<close>

theorem sort_by_name_case_variants:
  "distinct (map name [doc_upper, doc_a])
   \<and> rev (filteredDocuments (filterAndSortDocuments ascii_runtime
        (initial_state\<lparr>documents := [doc_upper, doc_a],
                        sortConfig := \<lparr>key = Some Name, direction = Asc\<rparr>\<rparr>)))
     \<noteq> filteredDocuments (filterAndSortDocuments ascii_runtime
        (initial_state\<lparr>documents := [doc_upper, doc_a],
                        sortConfig := \<lparr>key = Some Name, direction = Desc\<rparr>\<rparr>))"
proof -
  have lc: "toLowerCase ascii_runtime (name doc_a) = ''a.pdf''"
           "toLowerCase ascii_runtime (name doc_upper) = ''a.pdf''"
    by (simp_all add: ascii_runtime_def ascii_toLowerCase_def ascii_lower_def doc_a_def doc_upper_def)
  have ne: "doc_a \<noteq> doc_upper"
    by (simp add: doc_a_def doc_upper_def)
  have nm: "distinct (map name [doc_upper, doc_a])"
    by (simp add: doc_a_def doc_upper_def)
  show ?thesis
    using ne nm
    by (simp add: filterAndSortDocuments_def initial_state_def sortStage_def dateStage_def
          sizeStage_def searchStage_def Array_sort_def compareFn_def lc)
qed

end
